theory Spec2Isabelle
  imports Complex_Main
begin

section \<open>Engine primitives used by the terminal actor\<close>

text \<open>
  The actor is C++ on top of a game engine. Its \<open>int32\<close> values are modelled as
  mathematical integers (every theorem is about runs in which no \<open>int32\<close> operation
  overflows, which is undefined behaviour in C++), and its \<open>float\<close> values as real
  numbers, with one exception. In \<open>ApplyTrackballInput\<close> the integer taken out of the
  accumulator depends on how the sums before it were rounded, so there every float
  operation is followed by the rounding of binary32 (\<open>fl32\<close> below). Elsewhere rounding is
  not modelled: the runs that refute a statement there turn on integers, flags and calls,
  or on values that binary32 holds exactly (halves and quarters).

  Integer \<open>/\<close> and \<open>%\<close> of C++ truncate towards zero; Isabelle's \<open>div\<close> and \<open>mod\<close> round
  towards minus infinity. A zero divisor is undefined behaviour in C++: the functions that
  divide return \<open>None\<close> there.
\<close>

definition c_div :: "int \<Rightarrow> int \<Rightarrow> int" where
  "c_div a b = sgn a * sgn b * (\<bar>a\<bar> div \<bar>b\<bar>)"

definition c_rem :: "int \<Rightarrow> int \<Rightarrow> int" where
  "c_rem a b = sgn a * (\<bar>a\<bar> mod \<bar>b\<bar>)"


text \<open>\<open>TArray::IsValidIndex\<close>, and \<open>FMath::Clamp\<close>, \<open>FMath::Square\<close> of the engine.\<close>

definition IsValidIndex :: "'a list \<Rightarrow> int \<Rightarrow> bool" where
  "IsValidIndex xs i = (0 \<le> i \<and> i < int (length xs))"

definition Clamp :: "real \<Rightarrow> real \<Rightarrow> real \<Rightarrow> real" where
  "Clamp x lo hi = (if x < lo then lo else if x < hi then x else hi)"

definition Square :: "real \<Rightarrow> real" where
  "Square x = x * x"

text \<open>
  The rounding of IEEE 754 binary32, to the nearest value with ties to the even
  significand. A value in the binade \<open>[2^e, 2^(e+1))\<close> is rounded to a multiple of
  \<open>2^(e-23)\<close>, for the exponents \<open>e\<close> from \<open>-126\<close> to \<open>127\<close>, and a value below \<open>2^(-126)\<close>
  to a multiple of \<open>2^(-149)\<close>; \<open>binade n x\<close> looks for the exponent of \<open>x\<close> from
  \<open>n - 126\<close> downwards. The overflow to infinity is not modelled: \<open>binary32 x\<close> says that
  \<open>x\<close> is a finite value of the format, which rounding leaves as it is.
\<close>

definition pow2 :: "int \<Rightarrow> real" where
  "pow2 k = (if 0 \<le> k then 2 ^ nat k else 1 / 2 ^ nat (- k))"


fun binade :: "nat \<Rightarrow> real \<Rightarrow> int" where
  "binade 0 x = - 126"
| "binade (Suc n) x = (if pow2 (int n - 125) \<le> x then int n - 125 else binade n x)"



section \<open>The actor's state\<close>

text \<open>
  Blueprint events and the overridable hook \<open>OnAllBarsFull\<close> are calls out of the core;
  the model records each call, with its arguments, in the order made.
\<close>

datatype event =
    OnGridScrolled
  | OnProgressUpdated int real
  | OnChunkConsumed
  | OnFileCompleted int int
  | BP_OnDayComplete real
  | BP_OnShowFileSelection
  | OnAllBarsFull

text \<open>
  The fields of \<open>ATerminalActor\<close> that the core reads or writes, under their own names.
  The last four fields are the actor's surroundings: the world clock
  (\<open>GetWorld()->GetTimeSeconds()\<close>), the engine's random number generator (the sequence of
  raw draws and how many were consumed) and the calls made so far.
\<close>

record terminal =
  GridWidth :: int
  GridHeight :: int
  PrimeIndices :: "int list"
  ProgressBars :: "real list"
  PendingChunkValue :: real
  bBarCoolingDown :: "bool list"
  BarCooldownRemaining :: "real list"
  BarCooldownSeconds :: real
  FilesPerDay :: int
  FilesRefinedCount :: int
  bDayActive :: bool
  ScaryActive :: "bool list"
  MaxSensorDistance :: real
  GlobalGridNumbers :: "int list"
  GlobalMapWidth :: int
  GlobalMapHeight :: int
  ScrollX :: int
  ScrollY :: int
  ScrollSensitivity :: real
  AccumulatorX :: real
  AccumulatorY :: real
  DayStartTime :: real
  TimeSeconds :: real
  RandSource :: "nat \<Rightarrow> nat"
  RandPos :: nat
  Events :: "event list"

definition emit :: "event \<Rightarrow> terminal \<Rightarrow> terminal" where
  "emit e s = s\<lparr>Events := Events s @ [e]\<rparr>"

text \<open>
  \<open>FMath::RandRange(Min, Max)\<close> returns \<open>Min + RandHelper(Max - Min + 1)\<close>, a value of
  \<open>Min..Max\<close>; \<open>RandHelper\<close> of a non-positive range is 0 and draws nothing. The raw draw
  is reduced into the range, so every sequence of outcomes is some \<open>RandSource\<close>.
\<close>

definition RandRange :: "int \<Rightarrow> int \<Rightarrow> terminal \<Rightarrow> int \<times> terminal" where
  "RandRange MinV MaxV s =
     (let Range = MaxV - MinV + 1 in
      if 0 < Range
      then (MinV + int (RandSource s (RandPos s)) mod Range, s\<lparr>RandPos := Suc (RandPos s)\<rparr>)
      else (MinV, s))"

section \<open>Index conversion\<close>

definition GetGlobalIndexFromScreenIndex :: "terminal \<Rightarrow> int \<Rightarrow> int option" where
  "GetGlobalIndexFromScreenIndex s ScreenIndex =
     (if GridWidth s = 0 \<or> GlobalMapWidth s = 0 \<or> GlobalMapHeight s = 0 then None
      else
        let ScreenX = c_rem ScreenIndex (GridWidth s);
            ScreenY = c_div ScreenIndex (GridWidth s);
            RawGlobalX = ScrollX s + ScreenX;
            RawGlobalY = ScrollY s + ScreenY;
            WrappedX = c_rem RawGlobalX (GlobalMapWidth s);
            WrappedX = (if WrappedX < 0 then WrappedX + GlobalMapWidth s else WrappedX);
            WrappedY = c_rem RawGlobalY (GlobalMapHeight s);
            WrappedY = (if WrappedY < 0 then WrappedY + GlobalMapHeight s else WrappedY)
        in Some (WrappedY * GlobalMapWidth s + WrappedX))"

definition GetGridNumber :: "terminal \<Rightarrow> int \<Rightarrow> int \<Rightarrow> int option" where
  "GetGridNumber s GridX GridY =
     (if GlobalMapWidth s = 0 \<or> GlobalMapHeight s = 0 then None
      else
        let WrappedX = c_rem GridX (GlobalMapWidth s);
            WrappedX = (if WrappedX < 0 then WrappedX + GlobalMapWidth s else WrappedX);
            WrappedY = c_rem GridY (GlobalMapHeight s);
            WrappedY = (if WrappedY < 0 then WrappedY + GlobalMapHeight s else WrappedY);
            GlobalIdx = WrappedY * GlobalMapWidth s + WrappedX
        in Some (if IsValidIndex (GlobalGridNumbers s) GlobalIdx
                 then GlobalGridNumbers s ! nat GlobalIdx else 0))"

text \<open>
  The wrapping rule in the specification's words: the remainder of \<open>x\<close> by \<open>N\<close>, plus
  \<open>N\<close> when that remainder is negative.
\<close>

definition wrap :: "int \<Rightarrow> int \<Rightarrow> int" where
  "wrap x N = (let r = c_rem x N in if r < 0 then r + N else r)"

section \<open>Grid generation and primes\<close>

text \<open>
  \<open>GenerateGrid\<close>, step 1: \<open>for (i = 0; i < TotalGlobalCount; ++i)\<close> stores a fresh
  \<open>RandRange(1, 9)\<close> in cell \<open>i\<close>.
\<close>

function fill_grid :: "int \<Rightarrow> int \<Rightarrow> terminal \<Rightarrow> terminal" where
  "fill_grid i TotalGlobalCount s =
     (if i < TotalGlobalCount
      then (let (v, s1) = RandRange 1 9 s
            in fill_grid (i + 1) TotalGlobalCount
                 (s1\<lparr>GlobalGridNumbers := (GlobalGridNumbers s1)[nat i := v]\<rparr>))
      else s)"
  by pat_completeness auto
termination
  by (relation "measure (\<lambda>(i, n, s). nat (n - i))") auto

declare fill_grid.simps [simp del]

text \<open>
  Step 2, the body of the two sector loops: a random tile of the block that starts at
  \<open>(x, y)\<close>, marked scary when its index is valid.
\<close>

definition spawn_in_sector :: "int \<Rightarrow> int \<Rightarrow> terminal \<Rightarrow> terminal" where
  "spawn_in_sector x y s =
     (let SectorSize = 50;
          (rx, s1) = RandRange 5 (SectorSize - 5) s;
          RandX = x + rx;
          (ry, s2) = RandRange 5 (SectorSize - 5) s1;
          RandY = y + ry;
          GlobalIdx = RandY * GlobalMapWidth s2 + RandX
      in if IsValidIndex (ScaryActive s2) GlobalIdx
         then s2\<lparr>ScaryActive := (ScaryActive s2)[nat GlobalIdx := True]\<rparr>
         else s2)"

lemma GlobalMapWidth_spawn_in_sector [simp]:
  "GlobalMapWidth (spawn_in_sector x y s) = GlobalMapWidth s"
  by (simp add: spawn_in_sector_def RandRange_def Let_def split: prod.splits)

lemma GlobalMapHeight_spawn_in_sector [simp]:
  "GlobalMapHeight (spawn_in_sector x y s) = GlobalMapHeight s"
  by (simp add: spawn_in_sector_def RandRange_def Let_def split: prod.splits)

text \<open>The inner loop \<open>for (x = ...; x < GlobalMapWidth; x += SectorSize)\<close>.\<close>

function sector_columns :: "int \<Rightarrow> int \<Rightarrow> terminal \<Rightarrow> terminal" where
  "sector_columns y x s =
     (if x < GlobalMapWidth s then sector_columns y (x + 50) (spawn_in_sector x y s) else s)"
  by pat_completeness auto
termination
  by (relation "measure (\<lambda>(y, x, s). nat (GlobalMapWidth s - x))") auto

declare sector_columns.simps [simp del]

lemma GlobalMapHeight_sector_columns [simp]:
  "GlobalMapHeight (sector_columns y x s) = GlobalMapHeight s"
  by (induction y x s rule: sector_columns.induct) (subst sector_columns.simps, simp)

text \<open>The outer loop \<open>for (y = ...; y < GlobalMapHeight; y += SectorSize)\<close>.\<close>

function sector_rows :: "int \<Rightarrow> terminal \<Rightarrow> terminal" where
  "sector_rows y s =
     (if y < GlobalMapHeight s then sector_rows (y + 50) (sector_columns y 0 s) else s)"
  by pat_completeness auto
termination
  by (relation "measure (\<lambda>(y, s). nat (GlobalMapHeight s - y))") auto

declare sector_rows.simps [simp del]

text \<open>
  \<open>TArray::Init(v, n)\<close> leaves the array with \<open>n\<close> copies of \<open>v\<close>. The engine rejects a
  negative \<open>n\<close>; the theorems about \<open>GenerateGrid\<close> take a positive width and height.
\<close>

definition GenerateGrid :: "terminal \<Rightarrow> terminal" where
  "GenerateGrid s =
     (let TotalGlobalCount = GlobalMapWidth s * GlobalMapHeight s;
          s1 = s\<lparr>GlobalGridNumbers := replicate (nat TotalGlobalCount) 0\<rparr>;
          s2 = s1\<lparr>ScaryActive := replicate (nat TotalGlobalCount) False\<rparr>;
          s3 = fill_grid 0 TotalGlobalCount s2;
          s4 = sector_rows 0 s3
      in emit OnGridScrolled s4)"

definition IsPrime :: "int \<Rightarrow> bool" where
  "IsPrime Number = (Number = 2 \<or> Number = 3 \<or> Number = 5 \<or> Number = 7)"

definition IsIndexScary :: "terminal \<Rightarrow> int \<Rightarrow> bool option" where
  "IsIndexScary s ScreenIndex =
     (case GetGlobalIndexFromScreenIndex s ScreenIndex of
        None \<Rightarrow> None
      | Some GlobalIdx \<Rightarrow>
          Some (if IsValidIndex (ScaryActive s) GlobalIdx
                then ScaryActive s ! nat GlobalIdx else False))"

definition HighlightRandomPrime :: "terminal \<Rightarrow> terminal" where
  "HighlightRandomPrime s =
     (if length (PrimeIndices s) = 0 then s
      else
        let Candidates =
              filter (\<lambda>Idx. IsValidIndex (ScaryActive s) Idx \<and> \<not> ScaryActive s ! nat Idx)
                (PrimeIndices s)
        in if length Candidates = 0 then s
           else
             let (r, s1) = RandRange 0 (int (length Candidates) - 1) s;
                 Chosen = Candidates ! nat r
             in s1\<lparr>ScaryActive := (ScaryActive s1)[nat Chosen := True]\<rparr>)"

section \<open>Progress bars, files and days\<close>

definition ResetProgressBars :: "terminal \<Rightarrow> terminal" where
  "ResetProgressBars s =
     emit (OnProgressUpdated 3 0) (emit (OnProgressUpdated 2 0)
       (emit (OnProgressUpdated 1 0) (emit (OnProgressUpdated 0 0)
         (s\<lparr>ProgressBars := replicate 4 0\<rparr>))))"

definition IsBarAvailable :: "terminal \<Rightarrow> int \<Rightarrow> bool" where
  "IsBarAvailable s BarIndex =
     (if \<not> IsValidIndex (bBarCoolingDown s) BarIndex \<or> \<not> IsValidIndex (ProgressBars s) BarIndex
      then False
      else
        let bIsCooling = bBarCoolingDown s ! nat BarIndex;
            bIsFull = (1 \<le> ProgressBars s ! nat BarIndex)
        in \<not> bIsCooling \<and> \<not> bIsFull)"

definition IsBarFull :: "terminal \<Rightarrow> int \<Rightarrow> bool" where
  "IsBarFull s BarIndex =
     (if IsValidIndex (ProgressBars s) BarIndex then 1 \<le> ProgressBars s ! nat BarIndex
      else False)"

definition GetBarCooldownRatio :: "terminal \<Rightarrow> int \<Rightarrow> real" where
  "GetBarCooldownRatio s BarIndex =
     (if \<not> IsValidIndex (BarCooldownRemaining s) BarIndex \<or> BarCooldownSeconds s \<le> 0 then 0
      else Clamp (BarCooldownRemaining s ! nat BarIndex / BarCooldownSeconds s) 0 1)"

definition GetMasterProgress :: "terminal \<Rightarrow> real" where
  "GetMasterProgress s = Clamp (foldl (\<lambda>Total BinProgress. Total + BinProgress) 0 (ProgressBars s) / 4) 0 1"

text \<open>The loop of \<open>AllBarsFull\<close> returns false at the first bar below 1.\<close>

fun all_bars_full :: "real list \<Rightarrow> bool" where
  "all_bars_full [] = True"
| "all_bars_full (Bar # Bars) = (if Bar < 1 then False else all_bars_full Bars)"

definition AllBarsFull :: "terminal \<Rightarrow> bool" where
  "AllBarsFull s = all_bars_full (ProgressBars s)"

definition OnFileWorkComplete :: "terminal \<Rightarrow> terminal" where
  "OnFileWorkComplete s =
     (let s1 = s\<lparr>FilesRefinedCount := FilesRefinedCount s + 1\<rparr>;
          s2 = emit (OnFileCompleted (FilesRefinedCount s1) (FilesPerDay s1)) s1
      in if FilesPerDay s2 \<le> FilesRefinedCount s2
         then
           let s3 = s2\<lparr>bDayActive := False\<rparr>;
               Duration = TimeSeconds s3 - DayStartTime s3
           in emit (BP_OnDayComplete Duration) s3
         else emit BP_OnShowFileSelection (ResetProgressBars s2))"

definition ApplChunkToBar :: "int \<Rightarrow> terminal \<Rightarrow> terminal" where
  "ApplChunkToBar BarIndex s =
     (if \<not> bDayActive s \<or> PendingChunkValue s \<le> 0 then s
      else if \<not> IsValidIndex (ProgressBars s) BarIndex \<or> 1 \<le> ProgressBars s ! nat BarIndex then s
      else
        let s1 = s\<lparr>ProgressBars := (ProgressBars s)[nat BarIndex :=
                    Clamp (ProgressBars s ! nat BarIndex + PendingChunkValue s * 1.5) 0 1]\<rparr>;
            s2 = s1\<lparr>PendingChunkValue := 0\<rparr>;
            s3 = emit OnChunkConsumed s2;
            s4 = emit (OnProgressUpdated BarIndex (ProgressBars s3 ! nat BarIndex)) s3;
            s5 = (if 1 \<le> GetMasterProgress s4 then OnFileWorkComplete s4 else s4);
            s6 = (if AllBarsFull s5 then emit OnAllBarsFull s5 else s5)
        in s6)"

section \<open>The proximity sensor\<close>

text \<open>
  The body of the two scan loops of \<open>GetSensorProximityValue\<close>, on the pair
  \<open>(MinDistSq, bFound)\<close>.
\<close>

definition scan_cell :: "terminal \<Rightarrow> real \<Rightarrow> real \<Rightarrow> int \<Rightarrow> int \<Rightarrow> real \<times> bool \<Rightarrow> real \<times> bool" where
  "scan_cell s CenterX CenterY y x acc =
     (let WrappedX = c_rem x (GlobalMapWidth s);
          WrappedX = (if WrappedX < 0 then WrappedX + GlobalMapWidth s else WrappedX);
          WrappedY = c_rem y (GlobalMapHeight s);
          WrappedY = (if WrappedY < 0 then WrappedY + GlobalMapHeight s else WrappedY);
          GlobalIdx = WrappedY * GlobalMapWidth s + WrappedX
      in if IsValidIndex (ScaryActive s) GlobalIdx \<and> ScaryActive s ! nat GlobalIdx
         then
           let DistSq = Square (real_of_int x - CenterX) + Square (real_of_int y - CenterY)
           in if DistSq < fst acc then (DistSq, True) else acc
         else acc)"

definition GetSensorProximityValue :: "terminal \<Rightarrow> real option" where
  "GetSensorProximityValue s =
     (if GlobalMapWidth s = 0 \<or> GlobalMapHeight s = 0 then None
      else
        let RealMaxDistance = 15;
            MinDistSq = Square RealMaxDistance;
            bFound = False;
            CenterX = real_of_int (ScrollX s) + AccumulatorX s + 4.5;
            CenterY = real_of_int (ScrollY s) + AccumulatorY s + 4.5;
            SearchRadius = 16;
            (MinDistSq, bFound) =
              foldl (\<lambda>acc y.
                  foldl (\<lambda>acc x. scan_cell s CenterX CenterY y x acc) acc
                    [ScrollX s - SearchRadius .. ScrollX s + SearchRadius + 10])
                (MinDistSq, bFound)
                [ScrollY s - SearchRadius .. ScrollY s + SearchRadius + 10]
        in if \<not> bFound then Some 0
           else
             let Distance = sqrt MinDistSq
             in Some (Clamp (1 - Distance / RealMaxDistance) 0 1))"

section \<open>Scrolling\<close>


section \<open>Dropping a snake on a bar\<close>

text \<open>
  The loop of \<open>HandleScaryDrop\<close> over the selected screen tiles, on the running
  \<open>TotalValueFromSnake\<close> and the state.
\<close>

fun drop_tiles :: "int list \<Rightarrow> real \<Rightarrow> terminal \<Rightarrow> (real \<times> terminal) option" where
  "drop_tiles [] TotalValueFromSnake s = Some (TotalValueFromSnake, s)"
| "drop_tiles (ScreenIdx # TileIndices) TotalValueFromSnake s =
     (case GetGlobalIndexFromScreenIndex s ScreenIdx of
        None \<Rightarrow> None
      | Some GlobalIdx \<Rightarrow>
          if IsValidIndex (GlobalGridNumbers s) GlobalIdx
          then
            let NumberValue = GlobalGridNumbers s ! nat GlobalIdx;
                ProgressContribution = real_of_int NumberValue * 0.005;
                bScary = (IsValidIndex (ScaryActive s) GlobalIdx \<and> ScaryActive s ! nat GlobalIdx);
                ProgressContribution =
                  (if bScary then ProgressContribution * 4 else ProgressContribution);
                s1 = (if bScary then s\<lparr>ScaryActive := (ScaryActive s)[nat GlobalIdx := False]\<rparr>
                      else s);
                (v, s2) = RandRange 1 9 s1;
                s3 = s2\<lparr>GlobalGridNumbers := (GlobalGridNumbers s2)[nat GlobalIdx := v]\<rparr>
            in drop_tiles TileIndices (TotalValueFromSnake + ProgressContribution) s3
          else drop_tiles TileIndices TotalValueFromSnake s)"

definition HandleScaryDrop :: "int list \<Rightarrow> int \<Rightarrow> terminal \<Rightarrow> terminal option" where
  "HandleScaryDrop TileIndices BarIndex s =
     (case drop_tiles TileIndices 0 s of
        None \<Rightarrow> None
      | Some (TotalValueFromSnake, s1) \<Rightarrow>
          Some (emit OnGridScrolled
                  (ApplChunkToBar BarIndex (s1\<lparr>PendingChunkValue := TotalValueFromSnake\<rparr>))))"

section \<open>Concrete states\<close>

text \<open>
  A small configuration on which the functions are run: a \<open>4 \<times> 4\<close> map under the
  \<open>10 \<times> 10\<close> viewport, a day in progress with two files to refine, one scary tile (of
  value 4) in the map's first cell, and the other settings at their defaults.
\<close>

definition sample_terminal :: terminal where
  "sample_terminal =
     \<lparr> GridWidth = 10, GridHeight = 10, PrimeIndices = [],
       ProgressBars = [0, 0, 0, 0], PendingChunkValue = 0,
       bBarCoolingDown = [False, False, False, False],
       BarCooldownRemaining = [0, 0, 0, 0], BarCooldownSeconds = 2.5,
       FilesPerDay = 2, FilesRefinedCount = 0, bDayActive = True,
       ScaryActive = [True, False, False, False, False, False, False, False,
                      False, False, False, False, False, False, False, False],
       MaxSensorDistance = 15,
       GlobalGridNumbers = [4, 9, 2, 7, 1, 3, 5, 8, 6, 2, 9, 4, 7, 1, 8, 3],
       GlobalMapWidth = 4, GlobalMapHeight = 4, ScrollX = 0, ScrollY = 0,
       ScrollSensitivity = 0.5, AccumulatorX = 0, AccumulatorY = 0,
       DayStartTime = 10, TimeSeconds = 70,
       RandSource = (\<lambda>n. 1), RandPos = 0, Events = [] \<rparr>"

text \<open>The same configuration on a map of a single cell.\<close>

definition tiny_terminal :: terminal where
  "tiny_terminal = sample_terminal\<lparr>GlobalMapWidth := 1, GlobalMapHeight := 1\<rparr>"

text \<open>
  What \<open>HandleScaryDrop\<close> does once the snake's value is known: it stores the value as the
  pending chunk and applies it to the bar.
\<close>

definition deposit :: "real \<Rightarrow> int \<Rightarrow> terminal \<Rightarrow> terminal" where
  "deposit ChunkValue BarIndex s = ApplChunkToBar BarIndex (s\<lparr>PendingChunkValue := ChunkValue\<rparr>)"


text \<open>How many scary flags are set.\<close>

definition scary_count :: "terminal \<Rightarrow> nat" where
  "scary_count s = length (filter (\<lambda>b. b) (ScaryActive s))"

section \<open>Notions used to state the properties\<close>

text \<open>
  The cell that the scan coordinates \<open>(x, y)\<close> wrap to is flagged scary; the squared
  distance from the point \<open>(x, y)\<close> to the viewport's centre; and the coordinates that
  the two loops of \<open>GetSensorProximityValue\<close> visit.
\<close>

definition scary_at :: "terminal \<Rightarrow> int \<Rightarrow> int \<Rightarrow> bool" where
  "scary_at s x y =
     (IsValidIndex (ScaryActive s)
        (wrap y (GlobalMapHeight s) * GlobalMapWidth s + wrap x (GlobalMapWidth s))
      \<and> ScaryActive s !
          nat (wrap y (GlobalMapHeight s) * GlobalMapWidth s + wrap x (GlobalMapWidth s)))"

definition dist_sq :: "real \<Rightarrow> real \<Rightarrow> int \<Rightarrow> int \<Rightarrow> real" where
  "dist_sq CenterX CenterY x y = Square (real_of_int x - CenterX) + Square (real_of_int y - CenterY)"


text \<open>
  Two properties of the pair \<open>(MinDistSq, bFound)\<close> during the scan: the minimum is not
  negative and is below the threshold only when the flag is set; and the minimum is 0
  with the flag set.
\<close>

definition scan_inv :: "real \<times> bool \<Rightarrow> bool" where
  "scan_inv acc = (0 \<le> fst acc \<and> (snd acc \<or> Square 15 \<le> fst acc))"


text \<open>
  A cell index whose scary flag is set; the \<open>50 \<times> 50\<close> sector (column block, row block)
  that a cell index lies in, and its offset inside that sector; the offsets that
  \<open>GenerateGrid\<close> draws from; the number of sectors along a side of length \<open>n\<close>; and the
  lengths whose last sector holds all the offsets 5..45.
\<close>

definition scary_cell :: "terminal \<Rightarrow> int \<Rightarrow> bool" where
  "scary_cell s c = (IsValidIndex (ScaryActive s) c \<and> ScaryActive s ! nat c)"

definition cell_sector :: "terminal \<Rightarrow> int \<Rightarrow> int \<times> int" where
  "cell_sector s c = ((c mod GlobalMapWidth s) div 50, (c div GlobalMapWidth s) div 50)"

definition cell_offset :: "terminal \<Rightarrow> int \<Rightarrow> int \<times> int" where
  "cell_offset s c = ((c mod GlobalMapWidth s) mod 50, (c div GlobalMapWidth s) mod 50)"

definition interior_cell :: "terminal \<Rightarrow> int \<Rightarrow> bool" where
  "interior_cell s c =
     (5 \<le> fst (cell_offset s c) \<and> fst (cell_offset s c) \<le> 45
      \<and> 5 \<le> snd (cell_offset s c) \<and> snd (cell_offset s c) \<le> 45)"

definition sector_count :: "int \<Rightarrow> int" where
  "sector_count n = \<lceil>real_of_int n / 50\<rceil>"

definition whole_sectors :: "int \<Rightarrow> bool" where
  "whole_sectors n = (n mod 50 = 0 \<or> 46 \<le> n mod 50)"

text \<open>
  The sectors that the two loops have finished when they stand at sector \<open>(i0, j0)\<close> of a
  map \<open>a\<close> sectors wide, and what holds of the flags then: every scary cell is an
  interior cell of a finished sector, every finished sector holds exactly one scary
  cell, and the number of flags is the number of finished sectors.
\<close>

definition sector_done :: "int \<Rightarrow> int \<Rightarrow> int \<Rightarrow> int \<times> int \<Rightarrow> bool" where
  "sector_done a i0 j0 p =
     (0 \<le> fst p \<and> fst p < a \<and> 0 \<le> snd p \<and> (snd p < j0 \<or> (snd p = j0 \<and> fst p < i0)))"

definition spawn_inv :: "int \<Rightarrow> terminal \<Rightarrow> int \<Rightarrow> int \<Rightarrow> bool" where
  "spawn_inv a s i0 j0 =
     ((\<forall>c. scary_cell s c \<longrightarrow> interior_cell s c \<and> sector_done a i0 j0 (cell_sector s c))
      \<and> (\<forall>p. sector_done a i0 j0 p \<longrightarrow> (\<exists>!c. scary_cell s c \<and> cell_sector s c = p))
      \<and> int (scary_count s) = j0 * a + i0)"







section \<open>The wrapping rule\<close>

lemma c_rem_nonneg: "0 \<le> x \<Longrightarrow> 0 < N \<Longrightarrow> c_rem x N = x mod N"
  by (cases "x = 0") (simp_all add: c_rem_def)

lemma c_rem_neg: "x < 0 \<Longrightarrow> 0 < N \<Longrightarrow> c_rem x N = - ((- x) mod N)"
  by (simp add: c_rem_def)

lemma wrap_eq_mod:
  assumes "0 < N"
  shows "wrap x N = x mod N"
proof (cases "0 \<le> x")
  case True
  moreover from assms have "\<not> x mod N < 0"
    by (simp add: not_less)
  ultimately show ?thesis
    using assms by (simp add: wrap_def c_rem_nonneg Let_def)
next
  case False
  then have neg: "x < 0" by simp
  show ?thesis
  proof (cases "(- x) mod N = 0")
    case True
    then have "x mod N = 0"
      by (metis mod_minus_eq minus_minus minus_zero)
    with neg True assms show ?thesis
      by (simp add: wrap_def c_rem_neg Let_def)
  next
    case False
    with assms have pos: "0 < (- x) mod N"
      by (simp add: less_le)
    from assms False have "x mod N = N - (- x) mod N"
      using zmod_zminus1_eq_if [of "- x" N] by simp
    with neg pos assms show ?thesis
      by (simp add: wrap_def c_rem_neg Let_def)
  qed
qed

lemma GetGridNumber_wrap:
  assumes "GlobalMapWidth s \<noteq> 0" and "GlobalMapHeight s \<noteq> 0"
  shows "GetGridNumber s gx gy =
     Some (if IsValidIndex (GlobalGridNumbers s)
                (wrap gy (GlobalMapHeight s) * GlobalMapWidth s + wrap gx (GlobalMapWidth s))
           then GlobalGridNumbers s !
                nat (wrap gy (GlobalMapHeight s) * GlobalMapWidth s + wrap gx (GlobalMapWidth s))
           else 0)"
  using assms by (simp add: GetGridNumber_def wrap_def Let_def)

lemma GetGlobalIndexFromScreenIndex_wrap:
  assumes "GridWidth s \<noteq> 0" and "GlobalMapWidth s \<noteq> 0" and "GlobalMapHeight s \<noteq> 0"
  shows "GetGlobalIndexFromScreenIndex s i =
     Some (wrap (ScrollY s + c_div i (GridWidth s)) (GlobalMapHeight s) * GlobalMapWidth s
           + wrap (ScrollX s + c_rem i (GridWidth s)) (GlobalMapWidth s))"
  using assms by (simp add: GetGlobalIndexFromScreenIndex_def wrap_def Let_def)

text \<open>
  C7. For every integer \<open>x\<close> and modulus \<open>N > 0\<close> the wrapping rule gives a value of
  \<open>[0, N)\<close> and is unchanged by adding or subtracting \<open>N\<close>; and the coordinate
  reduction of \<open>GetGridNumber\<close> and of \<open>GetGlobalIndexFromScreenIndex\<close> is this rule,
  applied to each coordinate with the map's width and height as moduli.
\<close>

theorem wrapping_rule:
  assumes "0 < N" and "0 < GlobalMapWidth s" and "0 < GlobalMapHeight s" and "GridWidth s \<noteq> 0"
  shows "0 \<le> wrap x N \<and> wrap x N < N
       \<and> wrap x N = wrap (x + N) N \<and> wrap x N = wrap (x - N) N
       \<and> GetGridNumber s gx gy =
           Some (if IsValidIndex (GlobalGridNumbers s)
                      (wrap gy (GlobalMapHeight s) * GlobalMapWidth s
                       + wrap gx (GlobalMapWidth s))
                 then GlobalGridNumbers s !
                      nat (wrap gy (GlobalMapHeight s) * GlobalMapWidth s
                           + wrap gx (GlobalMapWidth s))
                 else 0)
       \<and> GetGlobalIndexFromScreenIndex s i =
           Some (wrap (ScrollY s + c_div i (GridWidth s)) (GlobalMapHeight s) * GlobalMapWidth s
                 + wrap (ScrollX s + c_rem i (GridWidth s)) (GlobalMapWidth s))"
proof -
  have "0 \<le> wrap x N" and "wrap x N < N"
    using assms(1) by (simp_all add: wrap_eq_mod)
  moreover have "wrap x N = wrap (x + N) N" and "wrap x N = wrap (x - N) N"
    using assms(1) by (simp_all add: wrap_eq_mod)
  ultimately show ?thesis
    using assms GetGridNumber_wrap [of s gx gy] GetGlobalIndexFromScreenIndex_wrap [of s i]
    by simp
qed

theorem wrapping_rule_witness:
  "0 \<le> wrap (- 7) 4 \<and> wrap (- 7) 4 < 4
   \<and> wrap (- 7) 4 = wrap (- 7 + 4) 4 \<and> wrap (- 7) 4 = wrap (- 7 - 4) 4
   \<and> GetGridNumber sample_terminal (- 7) 6 = Some 2
   \<and> GetGlobalIndexFromScreenIndex sample_terminal 13 = Some 7"
  using wrapping_rule [of 4 sample_terminal "- 7" "- 7" 6 13]
  by (simp add: sample_terminal_def wrap_eq_mod IsValidIndex_def c_div_def c_rem_def)

section \<open>Files and days\<close>

text \<open>
  C3. With \<open>FilesPerDay = 2\<close> and no file refined yet, the first \<open>OnFileWorkComplete\<close>
  reports file 1 of 2, resets the four bars to 0 (with a progress update for each) and
  asks for the next file, the day staying as it was. The second call, from whatever the
  bars and the clock have become in between, ends the day, reports its duration as the
  current time minus the day's start, and leaves the bars as they are.
\<close>

theorem day_completion:
  assumes "FilesPerDay s = 2" and "FilesRefinedCount s = 0"
  shows "ProgressBars (OnFileWorkComplete s) = [0, 0, 0, 0]
       \<and> Events (OnFileWorkComplete s) =
           Events s @ [OnFileCompleted 1 2, OnProgressUpdated 0 0, OnProgressUpdated 1 0,
                       OnProgressUpdated 2 0, OnProgressUpdated 3 0, BP_OnShowFileSelection]
       \<and> bDayActive (OnFileWorkComplete s) = bDayActive s
       \<and> FilesPerDay (OnFileWorkComplete s) = 2
       \<and> FilesRefinedCount (OnFileWorkComplete s) = 1
       \<and> (\<forall>s2. FilesPerDay s2 = 2 \<and> FilesRefinedCount s2 = 1 \<longrightarrow>
             \<not> bDayActive (OnFileWorkComplete s2)
           \<and> Events (OnFileWorkComplete s2) =
               Events s2 @ [OnFileCompleted 2 2,
                            BP_OnDayComplete (TimeSeconds s2 - DayStartTime s2)]
           \<and> ProgressBars (OnFileWorkComplete s2) = ProgressBars s2)"
  using assms
  by (simp add: OnFileWorkComplete_def ResetProgressBars_def emit_def Let_def
      numeral_eq_Suc)

theorem day_completion_witness:
  "ProgressBars (OnFileWorkComplete sample_terminal) = [0, 0, 0, 0]
   \<and> bDayActive (OnFileWorkComplete sample_terminal)
   \<and> \<not> bDayActive (OnFileWorkComplete
          ((OnFileWorkComplete sample_terminal)\<lparr>ProgressBars := [1, 1, 1, 1], TimeSeconds := 100\<rparr>))
   \<and> Events (OnFileWorkComplete
          ((OnFileWorkComplete sample_terminal)\<lparr>ProgressBars := [1, 1, 1, 1], TimeSeconds := 100\<rparr>)) =
        [OnFileCompleted 1 2, OnProgressUpdated 0 0, OnProgressUpdated 1 0,
         OnProgressUpdated 2 0, OnProgressUpdated 3 0, BP_OnShowFileSelection,
         OnFileCompleted 2 2, BP_OnDayComplete 90]
   \<and> ProgressBars (OnFileWorkComplete
          ((OnFileWorkComplete sample_terminal)\<lparr>ProgressBars := [1, 1, 1, 1], TimeSeconds := 100\<rparr>)) =
        [1, 1, 1, 1]"
proof -
  have a: "FilesPerDay sample_terminal = 2" and b: "FilesRefinedCount sample_terminal = 0"
    by (simp_all add: sample_terminal_def)
  note first = day_completion [OF a b]
  let ?s2 = "(OnFileWorkComplete sample_terminal)\<lparr>ProgressBars := [1, 1, 1, 1], TimeSeconds := 100\<rparr>"
  from first have "FilesPerDay ?s2 = 2 \<and> FilesRefinedCount ?s2 = 1" by simp
  with first have second: "\<not> bDayActive (OnFileWorkComplete ?s2)
           \<and> Events (OnFileWorkComplete ?s2) =
               Events ?s2 @ [OnFileCompleted 2 2,
                            BP_OnDayComplete (TimeSeconds ?s2 - DayStartTime ?s2)]
           \<and> ProgressBars (OnFileWorkComplete ?s2) = ProgressBars ?s2" by blast
  have c: "DayStartTime (OnFileWorkComplete sample_terminal) = 10"
    by (simp add: OnFileWorkComplete_def ResetProgressBars_def emit_def Let_def sample_terminal_def)
  have d: "bDayActive sample_terminal" "Events sample_terminal = []"
    by (simp_all add: sample_terminal_def)
  from first second c d show ?thesis by simp
qed

section \<open>The all-bars-full hook\<close>

text \<open>
  C1, evaluated on the first file of a two-file day. Four deposits of a full chunk, one
  per bar, bring the bars to 1 one after the other. The fourth makes the master progress
  reach 1 and fires the file completion, once; \<open>OnFileWorkComplete\<close> resets the bars
  before \<open>ApplChunkToBar\<close> tests \<open>AllBarsFull\<close>, so the hook \<open>OnAllBarsFull\<close> is never
  called in the whole run.
\<close>

theorem all_bars_full_hook_missed:
  "ProgressBars (deposit 1 2 (deposit 1 1 (deposit 1 0 sample_terminal))) = [1, 1, 1, 0]
   \<and> Events (deposit 1 3 (deposit 1 2 (deposit 1 1 (deposit 1 0 sample_terminal)))) =
       [OnChunkConsumed, OnProgressUpdated 0 1, OnChunkConsumed, OnProgressUpdated 1 1,
        OnChunkConsumed, OnProgressUpdated 2 1, OnChunkConsumed, OnProgressUpdated 3 1,
        OnFileCompleted 1 2, OnProgressUpdated 0 0, OnProgressUpdated 1 0,
        OnProgressUpdated 2 0, OnProgressUpdated 3 0, BP_OnShowFileSelection]
   \<and> ProgressBars (deposit 1 3 (deposit 1 2 (deposit 1 1 (deposit 1 0 sample_terminal)))) =
       [0, 0, 0, 0]"
  by (simp add: deposit_def sample_terminal_def ApplChunkToBar_def IsValidIndex_def Clamp_def
      emit_def GetMasterProgress_def AllBarsFull_def OnFileWorkComplete_def
      ResetProgressBars_def Let_def numeral_eq_Suc)

theorem all_bars_full_hook_missed_witness:
  "count_list (Events (deposit 1 3 (deposit 1 2 (deposit 1 1 (deposit 1 0 sample_terminal)))))
     OnAllBarsFull = 0
   \<and> count_list (Events (deposit 1 3 (deposit 1 2 (deposit 1 1 (deposit 1 0 sample_terminal)))))
     (OnFileCompleted 1 2) = 1"
  using all_bars_full_hook_missed by simp

text \<open>
  On the last file of the day the bars are not reset, and the same run calls the hook once,
  after the file completion.
\<close>

lemma all_bars_full_hook_on_last_file:
  "Events (deposit 1 3 (deposit 1 2 (deposit 1 1 (deposit 1 0
      (sample_terminal\<lparr>FilesPerDay := 1\<rparr>))))) =
       [OnChunkConsumed, OnProgressUpdated 0 1, OnChunkConsumed, OnProgressUpdated 1 1,
        OnChunkConsumed, OnProgressUpdated 2 1, OnChunkConsumed, OnProgressUpdated 3 1,
        OnFileCompleted 1 1, BP_OnDayComplete 60, OnAllBarsFull]"
  by (simp add: deposit_def sample_terminal_def ApplChunkToBar_def IsValidIndex_def Clamp_def
      emit_def GetMasterProgress_def AllBarsFull_def OnFileWorkComplete_def
      ResetProgressBars_def Let_def numeral_eq_Suc)

section \<open>The sensor and \<open>MaxSensorDistance\<close>\<close>

lemma scan_cell_MaxSensorDistance:
  "scan_cell (s\<lparr>MaxSensorDistance := d\<rparr>) = scan_cell s"
  by (simp add: scan_cell_def fun_eq_iff cong: if_cong)

text \<open>
  C10. \<open>GetSensorProximityValue\<close> does not read \<open>MaxSensorDistance\<close>: two states that
  differ in that field only give the same proximity. The threshold and the normalisation
  are the constant 15, the scan radius the constant 16.
\<close>

theorem sensor_ignores_MaxSensorDistance:
  "GetSensorProximityValue (s\<lparr>MaxSensorDistance := d\<rparr>) = GetSensorProximityValue s"
  by (simp add: GetSensorProximityValue_def scan_cell_MaxSensorDistance)

theorem sensor_ignores_MaxSensorDistance_witness:
  "GetSensorProximityValue (sample_terminal\<lparr>MaxSensorDistance := 20\<rparr>) =
   GetSensorProximityValue sample_terminal"
  using sensor_ignores_MaxSensorDistance [where s = sample_terminal and d = 20] by simp

section \<open>Prime indices and random activation\<close>

lemma RandRange_1_9:
  "RandRange 1 9 s = (1 + int (RandSource s (RandPos s)) mod 9, s\<lparr>RandPos := Suc (RandPos s)\<rparr>)"
  by (simp add: RandRange_def)

lemma RandRange_5_45:
  "RandRange 5 45 s = (5 + int (RandSource s (RandPos s)) mod 41, s\<lparr>RandPos := Suc (RandPos s)\<rparr>)"
  by (simp add: RandRange_def)

lemma fill_grid_unfold:
  "fill_grid i n s =
     (if i < n
      then fill_grid (i + 1) n
             (s\<lparr>RandPos := Suc (RandPos s),
                GlobalGridNumbers :=
                  (GlobalGridNumbers s)[nat i := 1 + int (RandSource s (RandPos s)) mod 9]\<rparr>)
      else s)"
  by (subst fill_grid.simps) (simp add: RandRange_1_9)

lemma spawn_in_sector_unfold:
  "spawn_in_sector x y s =
     (if IsValidIndex (ScaryActive s)
           ((y + (5 + int (RandSource s (Suc (RandPos s))) mod 41)) * GlobalMapWidth s
            + (x + (5 + int (RandSource s (RandPos s)) mod 41)))
      then s\<lparr>RandPos := Suc (Suc (RandPos s)),
             ScaryActive := (ScaryActive s)
               [nat ((y + (5 + int (RandSource s (Suc (RandPos s))) mod 41)) * GlobalMapWidth s
                     + (x + (5 + int (RandSource s (RandPos s)) mod 41))) := True]\<rparr>
      else s\<lparr>RandPos := Suc (Suc (RandPos s))\<rparr>)"
  by (simp add: spawn_in_sector_def RandRange_5_45 Let_def)

lemma PrimeIndices_fill_grid: "PrimeIndices (fill_grid i n s) = PrimeIndices s"
  by (induction i n s rule: fill_grid.induct) (subst fill_grid.simps, simp add: RandRange_1_9)

lemma PrimeIndices_spawn_in_sector: "PrimeIndices (spawn_in_sector x y s) = PrimeIndices s"
  by (simp add: spawn_in_sector_unfold)

lemma PrimeIndices_sector_columns: "PrimeIndices (sector_columns y x s) = PrimeIndices s"
  by (induction y x s rule: sector_columns.induct)
     (subst sector_columns.simps, simp add: PrimeIndices_spawn_in_sector)

lemma PrimeIndices_sector_rows: "PrimeIndices (sector_rows y s) = PrimeIndices s"
  by (induction y s rule: sector_rows.induct)
     (subst sector_rows.simps, simp add: PrimeIndices_sector_columns)

lemma PrimeIndices_GenerateGrid: "PrimeIndices (GenerateGrid s) = PrimeIndices s"
  by (simp add: GenerateGrid_def Let_def emit_def PrimeIndices_sector_rows PrimeIndices_fill_grid)

lemma HighlightRandomPrime_without_primes:
  "PrimeIndices s = [] \<Longrightarrow> HighlightRandomPrime s = s"
  by (simp add: HighlightRandomPrime_def)

text \<open>
  C5, evaluated on a map of one cell generated with the value 2. \<open>GenerateGrid\<close> fills
  the values and the scary flags and leaves \<open>PrimeIndices\<close> as it was, empty since the
  constructor; so after generation \<open>HighlightRandomPrime\<close> returns at its first test and
  activates nothing, although the cell holds a prime and is not scary.
\<close>

theorem prime_indices_never_populated:
  "GlobalGridNumbers (GenerateGrid tiny_terminal) = [2] \<and> IsPrime 2
   \<and> ScaryActive (GenerateGrid tiny_terminal) = [False]
   \<and> PrimeIndices (GenerateGrid tiny_terminal) = []
   \<and> HighlightRandomPrime (GenerateGrid tiny_terminal) = GenerateGrid tiny_terminal"
proof -
  have "PrimeIndices (GenerateGrid tiny_terminal) = []"
    by (simp add: PrimeIndices_GenerateGrid tiny_terminal_def sample_terminal_def)
  moreover from this
  have "HighlightRandomPrime (GenerateGrid tiny_terminal) = GenerateGrid tiny_terminal"
    by (rule HighlightRandomPrime_without_primes)
  moreover have "GlobalGridNumbers (GenerateGrid tiny_terminal) = [2]"
    and "ScaryActive (GenerateGrid tiny_terminal) = [False]"
    by (simp_all add: tiny_terminal_def sample_terminal_def GenerateGrid_def fill_grid_unfold
        sector_rows.simps sector_columns.simps spawn_in_sector_unfold IsValidIndex_def
        emit_def Let_def)
  ultimately show ?thesis
    by (simp add: IsPrime_def)
qed

theorem prime_indices_never_populated_witness:
  "ScaryActive (HighlightRandomPrime (GenerateGrid tiny_terminal)) = [False]"
  using prime_indices_never_populated by simp

section \<open>Dropping a scary tile\<close>

lemma ApplChunkToBar_frame:
  "ScaryActive (ApplChunkToBar i s) = ScaryActive s"
  "GlobalGridNumbers (ApplChunkToBar i s) = GlobalGridNumbers s"
  "GridWidth (ApplChunkToBar i s) = GridWidth s"
  "GlobalMapWidth (ApplChunkToBar i s) = GlobalMapWidth s"
  "GlobalMapHeight (ApplChunkToBar i s) = GlobalMapHeight s"
  "ScrollX (ApplChunkToBar i s) = ScrollX s"
  "ScrollY (ApplChunkToBar i s) = ScrollY s"
  by (simp_all add: ApplChunkToBar_def OnFileWorkComplete_def ResetProgressBars_def emit_def
      Let_def)

lemma GetGlobalIndexFromScreenIndex_cong:
  assumes "GridWidth t = GridWidth s" and "GlobalMapWidth t = GlobalMapWidth s"
    and "GlobalMapHeight t = GlobalMapHeight s" and "ScrollX t = ScrollX s"
    and "ScrollY t = ScrollY s"
  shows "GetGlobalIndexFromScreenIndex t i = GetGlobalIndexFromScreenIndex s i"
  using assms by (simp add: GetGlobalIndexFromScreenIndex_def cong: if_cong)

lemma ApplChunkToBar_invalid_bar:
  "\<not> IsValidIndex (ProgressBars s) BarIndex \<Longrightarrow> ApplChunkToBar BarIndex s = s"
  by (simp add: ApplChunkToBar_def)

lemma drop_tiles_single:
  assumes "GetGlobalIndexFromScreenIndex s ScreenIdx = Some g"
    and "IsValidIndex (GlobalGridNumbers s) g"
  shows "drop_tiles [ScreenIdx] acc s =
     Some (acc + (if IsValidIndex (ScaryActive s) g \<and> ScaryActive s ! nat g
                    then real_of_int (GlobalGridNumbers s ! nat g) * 0.005 * 4
                    else real_of_int (GlobalGridNumbers s ! nat g) * 0.005),
           s\<lparr>ScaryActive := (if IsValidIndex (ScaryActive s) g \<and> ScaryActive s ! nat g
                              then (ScaryActive s)[nat g := False] else ScaryActive s),
             RandPos := Suc (RandPos s),
             GlobalGridNumbers := (GlobalGridNumbers s)
               [nat g := 1 + int (RandSource s (RandPos s)) mod 9]\<rparr>)"
  using assms by (simp add: RandRange_1_9 Let_def)

text \<open>
  C2. A drop of a single screen tile whose cell holds the value 4 and is scary: the loop
  computes the contribution \<open>4 * 0.005 * 4 = 0.08\<close>; after \<open>HandleScaryDrop\<close>, on any
  bar, the cell's scary flag is cleared, its value is the fresh \<open>RandRange(1, 9)\<close> draw, a
  value of 1..9, and \<open>IsIndexScary\<close> of that screen tile is false.
\<close>

theorem scary_drop_example:
  assumes "GetGlobalIndexFromScreenIndex s ScreenIdx = Some g"
    and "IsValidIndex (GlobalGridNumbers s) g" and "GlobalGridNumbers s ! nat g = 4"
    and "IsValidIndex (ScaryActive s) g" and "ScaryActive s ! nat g"
  shows "map_option fst (drop_tiles [ScreenIdx] 0 s) = Some (4 * 0.005 * 4)
       \<and> (4 * 0.005 * 4 = (0.08 :: real))
       \<and> (\<exists>t. HandleScaryDrop [ScreenIdx] BarIndex s = Some t
              \<and> \<not> ScaryActive t ! nat g
              \<and> GlobalGridNumbers t ! nat g = fst (RandRange 1 9 s)
              \<and> 1 \<le> GlobalGridNumbers t ! nat g \<and> GlobalGridNumbers t ! nat g \<le> 9
              \<and> IsIndexScary t ScreenIdx = Some False)"
proof -
  let ?v = "1 + int (RandSource s (RandPos s)) mod 9"
  let ?s1 = "s\<lparr>ScaryActive := (ScaryActive s)[nat g := False],
               RandPos := Suc (RandPos s),
               GlobalGridNumbers := (GlobalGridNumbers s)[nat g := ?v]\<rparr>"
  let ?t = "emit OnGridScrolled (ApplChunkToBar BarIndex (?s1\<lparr>PendingChunkValue := 0.08\<rparr>))"
  have loop: "drop_tiles [ScreenIdx] 0 s = Some (0.08, ?s1)"
    using drop_tiles_single [OF assms(1,2), of 0] assms(3-5) by simp
  then have drop: "HandleScaryDrop [ScreenIdx] BarIndex s = Some ?t"
    by (simp add: HandleScaryDrop_def)
  have g: "0 \<le> g" "nat g < length (ScaryActive s)" "nat g < length (GlobalGridNumbers s)"
    using assms(2,4) by (auto simp: IsValidIndex_def)
  have scary: "ScaryActive ?t = (ScaryActive s)[nat g := False]"
    by (simp add: emit_def ApplChunkToBar_frame)
  have grid: "GlobalGridNumbers ?t = (GlobalGridNumbers s)[nat g := ?v]"
    by (simp add: emit_def ApplChunkToBar_frame)
  have idx: "GetGlobalIndexFromScreenIndex ?t ScreenIdx = Some g"
    using assms(1)
    by (subst GetGlobalIndexFromScreenIndex_cong [of _ s]) (simp_all add: emit_def ApplChunkToBar_frame)
  have "\<not> ScaryActive ?t ! nat g"
    using g scary by simp
  moreover have "GlobalGridNumbers ?t ! nat g = ?v"
    using g grid by simp
  moreover have "1 \<le> ?v" and "?v \<le> 9"
    by simp_all
  moreover have "IsIndexScary ?t ScreenIdx = Some False"
    using idx g scary by (simp add: IsIndexScary_def)
  ultimately show ?thesis
    using loop drop by (simp add: RandRange_1_9)
qed

theorem scary_drop_example_witness:
  "map_option fst (drop_tiles [0] 0 sample_terminal) = Some 0.08
   \<and> (\<exists>t. HandleScaryDrop [0] 2 sample_terminal = Some t
          \<and> \<not> ScaryActive t ! 0 \<and> GlobalGridNumbers t ! 0 = 2
          \<and> IsIndexScary t 0 = Some False)"
proof -
  have "GetGlobalIndexFromScreenIndex sample_terminal 0 = Some 0"
    by (simp add: GetGlobalIndexFromScreenIndex_def sample_terminal_def c_rem_def c_div_def)
  moreover have "IsValidIndex (GlobalGridNumbers sample_terminal) 0"
    and "GlobalGridNumbers sample_terminal ! nat 0 = 4"
    and "IsValidIndex (ScaryActive sample_terminal) 0"
    and "ScaryActive sample_terminal ! nat 0"
    by (simp_all add: sample_terminal_def IsValidIndex_def)
  ultimately have "map_option fst (drop_tiles [0] 0 sample_terminal) = Some (4 * 0.005 * 4)
       \<and> (4 * 0.005 * 4 = (0.08 :: real))
       \<and> (\<exists>t. HandleScaryDrop [0] 2 sample_terminal = Some t
              \<and> \<not> ScaryActive t ! nat 0
              \<and> GlobalGridNumbers t ! nat 0 = fst (RandRange 1 9 sample_terminal)
              \<and> 1 \<le> GlobalGridNumbers t ! nat 0 \<and> GlobalGridNumbers t ! nat 0 \<le> 9
              \<and> IsIndexScary t 0 = Some False)"
    by (rule scary_drop_example)
  moreover have "fst (RandRange 1 9 sample_terminal) = 2"
    by (simp add: RandRange_1_9 sample_terminal_def)
  ultimately show ?thesis
    by auto
qed

section \<open>Invalid inputs\<close>

lemma drop_tiles_ProgressBars:
  "drop_tiles TileIndices acc s = Some (total_value, s1) \<Longrightarrow> ProgressBars s1 = ProgressBars s"
proof (induction TileIndices arbitrary: acc s)
  case Nil
  then show ?case by simp
next
  case (Cons ScreenIdx TileIndices)
  show ?case
  proof (cases "GetGlobalIndexFromScreenIndex s ScreenIdx")
    case None
    with Cons.prems show ?thesis by simp
  next
    case (Some g)
    show ?thesis
    proof (cases "IsValidIndex (GlobalGridNumbers s) g")
      case True
      with Some Cons.prems
      obtain acc' s' where "drop_tiles TileIndices acc' s' = Some (total_value, s1)"
        and "ProgressBars s' = ProgressBars s"
        by (simp add: RandRange_1_9 Let_def split: if_splits)
      with Cons.IH show ?thesis by metis
    next
      case False
      with Some Cons.prems Cons.IH show ?thesis by simp
    qed
  qed
qed

text \<open>
  C9, as the code has it. With a bar index out of range \<open>IsBarAvailable\<close> and \<open>IsBarFull\<close>
  are false, \<open>GetBarCooldownRatio\<close> is 0 and \<open>ApplChunkToBar\<close> returns the state unchanged.
  With a global index out of range \<open>IsIndexScary\<close> is false, \<open>GetGridNumber\<close> is 0 and the
  loop of \<open>HandleScaryDrop\<close> skips the tile. \<open>HandleScaryDrop\<close> itself always writes: on an
  empty selection it sets the pending chunk to 0 and reports the grid as scrolled, and
  with a bar index out of range it still consumes the selected tiles and leaves their
  value as the pending chunk.
\<close>

theorem invalid_inputs_tolerated:
  "(\<not> IsValidIndex (ProgressBars s) BarIndex \<longrightarrow>
      \<not> IsBarAvailable s BarIndex \<and> \<not> IsBarFull s BarIndex \<and> ApplChunkToBar BarIndex s = s)
   \<and> (\<not> IsValidIndex (bBarCoolingDown s) BarIndex \<longrightarrow> \<not> IsBarAvailable s BarIndex)
   \<and> (\<not> IsValidIndex (BarCooldownRemaining s) BarIndex \<longrightarrow> GetBarCooldownRatio s BarIndex = 0)
   \<and> (GetGlobalIndexFromScreenIndex s ScreenIdx = Some g \<and> \<not> IsValidIndex (ScaryActive s) g \<longrightarrow>
        IsIndexScary s ScreenIdx = Some False)
   \<and> (GlobalMapWidth s \<noteq> 0 \<and> GlobalMapHeight s \<noteq> 0
        \<and> \<not> IsValidIndex (GlobalGridNumbers s)
              (wrap GridY (GlobalMapHeight s) * GlobalMapWidth s + wrap GridX (GlobalMapWidth s)) \<longrightarrow>
        GetGridNumber s GridX GridY = Some 0)
   \<and> (GetGlobalIndexFromScreenIndex s ScreenIdx = Some g
        \<and> \<not> IsValidIndex (GlobalGridNumbers s) g \<longrightarrow>
        drop_tiles (ScreenIdx # TileIndices) acc s = drop_tiles TileIndices acc s)
   \<and> HandleScaryDrop [] BarIndex s = Some (emit OnGridScrolled (s\<lparr>PendingChunkValue := 0\<rparr>))
   \<and> (\<not> IsValidIndex (ProgressBars s) BarIndex
        \<and> drop_tiles TileIndices 0 s = Some (total_value, s1) \<longrightarrow>
        HandleScaryDrop TileIndices BarIndex s =
          Some (emit OnGridScrolled (s1\<lparr>PendingChunkValue := total_value\<rparr>)))"
proof -
  have "\<not> IsValidIndex (ProgressBars s) BarIndex \<longrightarrow>
      \<not> IsBarAvailable s BarIndex \<and> \<not> IsBarFull s BarIndex \<and> ApplChunkToBar BarIndex s = s"
    by (simp add: IsBarAvailable_def IsBarFull_def ApplChunkToBar_def)
  moreover have "\<not> IsValidIndex (bBarCoolingDown s) BarIndex \<longrightarrow> \<not> IsBarAvailable s BarIndex"
    by (simp add: IsBarAvailable_def)
  moreover have "\<not> IsValidIndex (BarCooldownRemaining s) BarIndex \<longrightarrow>
      GetBarCooldownRatio s BarIndex = 0"
    by (simp add: GetBarCooldownRatio_def)
  moreover have "GetGlobalIndexFromScreenIndex s ScreenIdx = Some g
      \<and> \<not> IsValidIndex (ScaryActive s) g \<longrightarrow> IsIndexScary s ScreenIdx = Some False"
    by (simp add: IsIndexScary_def)
  moreover have "GlobalMapWidth s \<noteq> 0 \<and> GlobalMapHeight s \<noteq> 0
        \<and> \<not> IsValidIndex (GlobalGridNumbers s)
              (wrap GridY (GlobalMapHeight s) * GlobalMapWidth s + wrap GridX (GlobalMapWidth s)) \<longrightarrow>
        GetGridNumber s GridX GridY = Some 0"
    by (simp add: GetGridNumber_wrap)
  moreover have "GetGlobalIndexFromScreenIndex s ScreenIdx = Some g
        \<and> \<not> IsValidIndex (GlobalGridNumbers s) g \<longrightarrow>
        drop_tiles (ScreenIdx # TileIndices) acc s = drop_tiles TileIndices acc s"
    by simp
  moreover have "HandleScaryDrop [] BarIndex s =
      Some (emit OnGridScrolled (s\<lparr>PendingChunkValue := 0\<rparr>))"
    by (simp add: HandleScaryDrop_def ApplChunkToBar_def)
  moreover have "\<not> IsValidIndex (ProgressBars s) BarIndex
        \<and> drop_tiles TileIndices 0 s = Some (total_value, s1) \<longrightarrow>
        HandleScaryDrop TileIndices BarIndex s =
          Some (emit OnGridScrolled (s1\<lparr>PendingChunkValue := total_value\<rparr>))"
  proof
    assume a: "\<not> IsValidIndex (ProgressBars s) BarIndex
        \<and> drop_tiles TileIndices 0 s = Some (total_value, s1)"
    then have "ProgressBars s1 = ProgressBars s"
      using drop_tiles_ProgressBars by blast
    with a have "ApplChunkToBar BarIndex (s1\<lparr>PendingChunkValue := total_value\<rparr>) =
        s1\<lparr>PendingChunkValue := total_value\<rparr>"
      by (simp add: ApplChunkToBar_invalid_bar)
    with a show "HandleScaryDrop TileIndices BarIndex s =
          Some (emit OnGridScrolled (s1\<lparr>PendingChunkValue := total_value\<rparr>))"
      by (simp add: HandleScaryDrop_def)
  qed
  ultimately show ?thesis
    by blast
qed

text \<open>
  C9 as stated fails: a drop on bar 7 clears the scary flag of the selected cell,
  resamples its value and leaves 0.08 pending; the screen index 100, outside the
  \<open>10 \<times> 10\<close> viewport, is wrapped onto cell 8 and consumed; and a tile selected twice is
  consumed twice (its value 9, then the resampled 2).
\<close>

theorem invalid_bar_drop_consumes_tiles:
  "\<not> IsValidIndex (ProgressBars sample_terminal) 7
   \<and> ScaryActive sample_terminal ! 0 \<and> GlobalGridNumbers sample_terminal ! 0 = 4
   \<and> PendingChunkValue sample_terminal = 0
   \<and> map_option ScaryActive (HandleScaryDrop [0] 7 sample_terminal) = Some (replicate 16 False)
   \<and> map_option GlobalGridNumbers (HandleScaryDrop [0] 7 sample_terminal) =
       Some [2, 9, 2, 7, 1, 3, 5, 8, 6, 2, 9, 4, 7, 1, 8, 3]
   \<and> map_option PendingChunkValue (HandleScaryDrop [0] 7 sample_terminal) = Some 0.08
   \<and> GlobalGridNumbers sample_terminal ! 8 = 6
   \<and> map_option GlobalGridNumbers (HandleScaryDrop [100] 0 sample_terminal) =
       Some [4, 9, 2, 7, 1, 3, 5, 8, 2, 2, 9, 4, 7, 1, 8, 3]
   \<and> map_option GlobalGridNumbers (HandleScaryDrop [1, 1] 0 sample_terminal) =
       Some [4, 2, 2, 7, 1, 3, 5, 8, 6, 2, 9, 4, 7, 1, 8, 3]
   \<and> map_option ProgressBars (HandleScaryDrop [1, 1] 0 sample_terminal) =
       Some [(9 * 0.005 + 2 * 0.005) * 1.5, 0, 0, 0]"
  by (simp add: sample_terminal_def HandleScaryDrop_def GetGlobalIndexFromScreenIndex_def
      c_rem_def c_div_def IsValidIndex_def RandRange_1_9 ApplChunkToBar_def emit_def Clamp_def
      GetMasterProgress_def AllBarsFull_def Let_def numeral_eq_Suc)

theorem invalid_inputs_tolerated_witness:
  "\<not> IsBarAvailable sample_terminal 7 \<and> \<not> IsBarFull sample_terminal 7
   \<and> ApplChunkToBar 7 sample_terminal = sample_terminal
   \<and> GetBarCooldownRatio sample_terminal (- 1) = 0
   \<and> IsIndexScary (sample_terminal\<lparr>ScaryActive := []\<rparr>) 5 = Some False
   \<and> GetGridNumber (sample_terminal\<lparr>GlobalGridNumbers := []\<rparr>) 1 1 = Some 0
   \<and> drop_tiles [5] 0 (sample_terminal\<lparr>GlobalGridNumbers := []\<rparr>) =
       Some (0, sample_terminal\<lparr>GlobalGridNumbers := []\<rparr>)
   \<and> HandleScaryDrop [] 0 sample_terminal =
       Some (emit OnGridScrolled (sample_terminal\<lparr>PendingChunkValue := 0\<rparr>))"
proof -
  have idx: "GetGlobalIndexFromScreenIndex (sample_terminal\<lparr>ScaryActive := []\<rparr>) 5 = Some 1"
    "GetGlobalIndexFromScreenIndex (sample_terminal\<lparr>GlobalGridNumbers := []\<rparr>) 5 = Some 1"
    by (simp_all add: GetGlobalIndexFromScreenIndex_def sample_terminal_def c_rem_def c_div_def)
  have bars: "\<not> IsValidIndex (ProgressBars sample_terminal) 7"
    "\<not> IsValidIndex (bBarCoolingDown sample_terminal) 7"
    "\<not> IsValidIndex (BarCooldownRemaining sample_terminal) (- 1)"
    by (simp_all add: sample_terminal_def IsValidIndex_def)
  have dims: "GlobalMapWidth (sample_terminal\<lparr>GlobalGridNumbers := []\<rparr>) \<noteq> 0"
    "GlobalMapHeight (sample_terminal\<lparr>GlobalGridNumbers := []\<rparr>) \<noteq> 0"
    by (simp_all add: sample_terminal_def)
  have empty: "\<not> IsValidIndex (ScaryActive (sample_terminal\<lparr>ScaryActive := []\<rparr>)) k"
    "\<not> IsValidIndex (GlobalGridNumbers (sample_terminal\<lparr>GlobalGridNumbers := []\<rparr>)) k" for k
    by (simp_all add: IsValidIndex_def)
  show ?thesis
    using invalid_inputs_tolerated [where s = sample_terminal and BarIndex = 7]
      invalid_inputs_tolerated [where s = sample_terminal and BarIndex = "- 1"]
      invalid_inputs_tolerated [where s = "sample_terminal\<lparr>ScaryActive := []\<rparr>"
        and ScreenIdx = 5 and g = 1]
      invalid_inputs_tolerated [where s = "sample_terminal\<lparr>GlobalGridNumbers := []\<rparr>"
        and ScreenIdx = 5 and g = 1 and GridX = 1 and GridY = 1 and TileIndices = "[]" and acc = 0]
      invalid_inputs_tolerated [where s = sample_terminal and BarIndex = 0]
      idx bars dims empty
    by simp
qed

section \<open>The extremes of the proximity sensor\<close>

lemma scan_cell_eq:
  "scan_cell s cx cy y x acc =
     (if scary_at s x y \<and> dist_sq cx cy x y < fst acc then (dist_sq cx cy x y, True) else acc)"
  by (simp add: scan_cell_def scary_at_def dist_sq_def wrap_def Let_def)

lemma dist_sq_nonneg: "0 \<le> dist_sq cx cy x y"
  by (simp add: dist_sq_def Square_def)



text \<open>
  The scan keeps the minimum non-negative and the flag set once the minimum has dropped
  below the threshold; and a minimum of 0, once found, stays.
\<close>

lemma scan_cell_inv: "scan_inv acc \<Longrightarrow> scan_inv (scan_cell s cx cy y x acc)"
  by (simp add: scan_cell_eq scan_inv_def dist_sq_nonneg)



lemma scan_row_inv: "scan_inv acc \<Longrightarrow> scan_inv (foldl (\<lambda>acc x. scan_cell s cx cy y x acc) acc xs)"
  by (induction xs arbitrary: acc) (simp_all add: scan_cell_inv)



lemma scan_rows_inv:
  "scan_inv acc \<Longrightarrow>
   scan_inv (foldl (\<lambda>acc y. foldl (\<lambda>acc x. scan_cell s cx cy y x acc) acc xs) acc ys)"
  by (induction ys arbitrary: acc) (simp_all add: scan_row_inv)







section \<open>Scroll accumulation\<close>

subsection \<open>Rounding to binary32\<close>







text \<open>The exponent that \<open>binade\<close> finds.\<close>

lemma binade_lower: "- 126 \<le> binade n x"
  by (induction n) simp_all










subsection \<open>The integer part and the fraction\<close>




subsection \<open>A call\<close>




subsection \<open>A sequence of calls\<close>










subsection \<open>Runs that miss the step\<close>














section \<open>One scary tile per sector\<close>

lemma sector_count_bounds: "50 * (sector_count n - 1) < n \<and> n \<le> 50 * sector_count n"
proof -
  have "real_of_int (sector_count n) - 1 < real_of_int n / 50"
    and "real_of_int n / 50 \<le> real_of_int (sector_count n)"
    unfolding sector_count_def by linarith+
  then have "real_of_int (50 * (sector_count n - 1)) < real_of_int n"
    and "real_of_int n \<le> real_of_int (50 * sector_count n)"
    by simp_all
  then show ?thesis
    by (simp only: of_int_less_iff of_int_le_iff)
qed

lemma whole_sectors_bounds:
  assumes "0 < n" and "whole_sectors n"
  shows "0 < sector_count n \<and> 50 * (sector_count n - 1) + 45 < n \<and> n \<le> 50 * sector_count n"
proof -
  define q r a where "q = n div 50" and "r = n mod 50" and "a = sector_count n"
  have n: "n = 50 * q + r" and r: "0 \<le> r" "r < 50"
    by (simp_all add: q_def r_def)
  have b: "50 * (a - 1) < n" "n \<le> 50 * a"
    using sector_count_bounds [of n] by (simp_all add: a_def)
  from assms(2) have "r = 0 \<or> 46 \<le> r"
    by (simp add: whole_sectors_def r_def)
  then have "50 * (a - 1) + 45 < n"
  proof
    assume z: "r = 0"
    with n b(1) have "50 * (a - 1) < 50 * q" by simp
    then have "a - 1 < q" by simp
    moreover from z n b(2) have "q \<le> a" by simp
    ultimately have "a = q" by simp
    with z n show ?thesis by simp
  next
    assume l: "46 \<le> r"
    from n r(2) b(1) have "50 * (a - 1) < 50 * (q + 1)" by simp
    then have "a - 1 < q + 1" by simp
    moreover from n l b(2) have "50 * q < 50 * a" by simp
    then have "q < a" by simp
    ultimately have "a = q + 1" by simp
    with l n show ?thesis by simp
  qed
  moreover have "0 < a"
    using assms(1) b by simp
  ultimately show ?thesis
    using b by (simp add: a_def)
qed

lemma count_set_flag:
  "k < length xs \<Longrightarrow> \<not> xs ! k \<Longrightarrow>
   length (filter (\<lambda>b. b) (xs[k := True])) = Suc (length (filter (\<lambda>b. b) xs))"
proof (induction xs arbitrary: k)
  case Nil
  then show ?case by simp
next
  case (Cons x xs)
  then show ?case by (cases k) simp_all
qed

lemma sector_done_next:
  assumes "0 \<le> i0" and "i0 < a" and "0 \<le> j0"
  shows "sector_done a (i0 + 1) j0 p \<longleftrightarrow> sector_done a i0 j0 p \<or> p = (i0, j0)"
  using assms by (cases p) (auto simp: sector_done_def)

lemma sector_done_irrefl: "\<not> sector_done a i0 j0 (i0, j0)"
  by (simp add: sector_done_def)

lemma sector_done_row: "sector_done a a j0 p \<longleftrightarrow> sector_done a 0 (j0 + 1) p"
  by (cases p) (auto simp: sector_done_def)

text \<open>
  The cell picked in the block of sector \<open>(i, j)\<close>, on a map whose last column of sectors
  and last row of sectors hold all the offsets 5..45.
\<close>

lemma picked_cell:
  fixes W H a b i j rx ry :: int
  assumes "0 \<le> i" and "i < a" and "0 \<le> j" and "j < b"
    and "5 \<le> rx" and "rx \<le> 45" and "5 \<le> ry" and "ry \<le> 45"
    and "50 * (a - 1) + 45 < W" and "50 * (b - 1) + 45 < H"
  shows "0 \<le> (50 * j + ry) * W + (50 * i + rx)
       \<and> (50 * j + ry) * W + (50 * i + rx) < W * H
       \<and> ((50 * j + ry) * W + (50 * i + rx)) mod W = 50 * i + rx
       \<and> ((50 * j + ry) * W + (50 * i + rx)) div W = 50 * j + ry
       \<and> (50 * i + rx) div 50 = i \<and> (50 * j + ry) div 50 = j
       \<and> (50 * i + rx) mod 50 = rx \<and> (50 * j + ry) mod 50 = ry"
proof -
  let ?c = "(50 * j + ry) * W + (50 * i + rx)"
  have r: "0 \<le> 50 * i + rx" "50 * i + rx < W" using assms by simp_all
  then have W: "0 < W" by simp
  have q: "0 \<le> 50 * j + ry" "50 * j + ry + 1 \<le> H" using assms by simp_all
  have "0 \<le> (50 * j + ry) * W"
    using q(1) W by simp
  with r have c0: "0 \<le> ?c" by simp
  have "?c < (50 * j + ry) * W + W"
    using r by simp
  also have "\<dots> = (50 * j + ry + 1) * W"
    by (simp add: algebra_simps)
  also have "\<dots> \<le> H * W"
    using q(2) W by (intro mult_right_mono) simp_all
  finally have c1: "?c < W * H"
    by (simp add: mult.commute)
  have m: "?c mod W = 50 * i + rx"
    using r by simp
  have d: "?c div W = 50 * j + ry"
    using r W by simp
  have "(50 * i + rx) div 50 = i" and "(50 * j + ry) div 50 = j"
    and "(50 * i + rx) mod 50 = rx" and "(50 * j + ry) mod 50 = ry"
    using assms by simp_all
  with c0 c1 m d show ?thesis by simp
qed

lemma scary_cell_set_flag:
  assumes "IsValidIndex xs c0"
  shows "(IsValidIndex (xs[nat c0 := True]) c \<and> xs[nat c0 := True] ! nat c)
         \<longleftrightarrow> c = c0 \<or> (IsValidIndex xs c \<and> xs ! nat c)"
  using assms by (auto simp: IsValidIndex_def nth_list_update)

lemma spawn_in_sector_step:
  fixes a b i0 j0 :: int
  assumes W: "50 * (a - 1) + 45 < GlobalMapWidth s" and H: "50 * (b - 1) + 45 < GlobalMapHeight s"
    and len: "length (ScaryActive s) = nat (GlobalMapWidth s * GlobalMapHeight s)"
    and i0: "0 \<le> i0" "i0 < a" and j0: "0 \<le> j0" "j0 < b"
    and inv: "spawn_inv a s i0 j0"
  shows "spawn_inv a (spawn_in_sector (50 * i0) (50 * j0) s) (i0 + 1) j0"
proof -
  let ?rx = "5 + int (RandSource s (RandPos s)) mod 41"
  let ?ry = "5 + int (RandSource s (Suc (RandPos s))) mod 41"
  let ?c0 = "(50 * j0 + ?ry) * GlobalMapWidth s + (50 * i0 + ?rx)"
  let ?s' = "spawn_in_sector (50 * i0) (50 * j0) s"
  have rx: "5 \<le> ?rx" "?rx \<le> 45" and ry: "5 \<le> ?ry" "?ry \<le> 45"
    by simp_all
  note pc = picked_cell [OF i0 j0 rx ry W H]
  have valid: "IsValidIndex (ScaryActive s) ?c0"
    using pc len by (simp add: IsValidIndex_def)
  then have s': "?s' = s\<lparr>RandPos := Suc (Suc (RandPos s)),
                        ScaryActive := (ScaryActive s)[nat ?c0 := True]\<rparr>"
    by (simp add: spawn_in_sector_unfold)
  have sec': "cell_sector ?s' c = cell_sector s c" and int': "interior_cell ?s' c = interior_cell s c"
    for c
    by (simp_all add: cell_sector_def interior_cell_def cell_offset_def)
  have new: "scary_cell ?s' c \<longleftrightarrow> c = ?c0 \<or> scary_cell s c" for c
    unfolding scary_cell_def s' using scary_cell_set_flag [OF valid, of c] by simp
  have sec0: "cell_sector s ?c0 = (i0, j0)"
    using pc by (simp add: cell_sector_def)
  have int0: "interior_cell s ?c0"
    using pc rx ry by (simp add: interior_cell_def cell_offset_def)
  from inv have B: "\<And>c. scary_cell s c \<Longrightarrow> interior_cell s c \<and> sector_done a i0 j0 (cell_sector s c)"
    and C: "\<And>p. sector_done a i0 j0 p \<Longrightarrow> \<exists>!c. scary_cell s c \<and> cell_sector s c = p"
    and D: "int (scary_count s) = j0 * a + i0"
    unfolding spawn_inv_def by blast+
  have fresh: "\<not> scary_cell s ?c0"
    using B [of ?c0] sec0 sector_done_irrefl [of a i0 j0] by auto
  have B': "interior_cell ?s' c \<and> sector_done a (i0 + 1) j0 (cell_sector ?s' c)"
    if "scary_cell ?s' c" for c
    using that B [of c] sec0 int0
    unfolding new sec' int' sector_done_next [OF i0 j0(1)] by auto
  have C': "\<exists>!c. scary_cell ?s' c \<and> cell_sector ?s' c = p"
    if "sector_done a (i0 + 1) j0 p" for p
  proof (cases "p = (i0, j0)")
    case True
    show ?thesis
      unfolding new sec' True
    proof (rule ex1I [of _ ?c0])
      show "(?c0 = ?c0 \<or> scary_cell s ?c0) \<and> cell_sector s ?c0 = (i0, j0)"
        using sec0 by simp
    next
      fix c
      assume "(c = ?c0 \<or> scary_cell s c) \<and> cell_sector s c = (i0, j0)"
      then show "c = ?c0"
        using B [of c] sector_done_irrefl [of a i0 j0] by auto
    qed
  next
    case False
    with that have prev: "sector_done a i0 j0 p"
      unfolding sector_done_next [OF i0 j0(1)] by simp
    from C [OF this] obtain c where c: "scary_cell s c" "cell_sector s c = p"
      and uniq: "\<And>d. scary_cell s d \<and> cell_sector s d = p \<Longrightarrow> d = c"
      by auto
    show ?thesis
      unfolding new sec'
    proof (rule ex1I [of _ c])
      show "(c = ?c0 \<or> scary_cell s c) \<and> cell_sector s c = p"
        using c by simp
    next
      fix d
      assume "(d = ?c0 \<or> scary_cell s d) \<and> cell_sector s d = p"
      with False sec0 have "scary_cell s d \<and> cell_sector s d = p"
        by auto
      then show "d = c" by (rule uniq)
    qed
  qed
  have "\<not> ScaryActive s ! nat ?c0"
    using fresh valid by (simp add: scary_cell_def)
  moreover have "nat ?c0 < length (ScaryActive s)"
    using valid unfolding IsValidIndex_def by linarith
  ultimately have "scary_count ?s' = Suc (scary_count s)"
    unfolding s' scary_count_def by (simp add: count_set_flag)
  with D have D': "int (scary_count ?s') = j0 * a + (i0 + 1)"
    by simp
  show ?thesis
    unfolding spawn_inv_def using B' C' D' by blast
qed

lemma spawn_in_sector_frame:
  "length (ScaryActive (spawn_in_sector x y s)) = length (ScaryActive s)"
  "GlobalGridNumbers (spawn_in_sector x y s) = GlobalGridNumbers s"
  by (simp_all add: spawn_in_sector_unfold)

lemma sector_columns_frame:
  "GlobalMapWidth (sector_columns y x s) = GlobalMapWidth s
   \<and> length (ScaryActive (sector_columns y x s)) = length (ScaryActive s)
   \<and> GlobalGridNumbers (sector_columns y x s) = GlobalGridNumbers s"
  by (induction y x s rule: sector_columns.induct)
     (subst (1 2 3) sector_columns.simps, simp add: spawn_in_sector_frame)

lemma sector_rows_frame:
  "GlobalMapWidth (sector_rows y s) = GlobalMapWidth s
   \<and> GlobalMapHeight (sector_rows y s) = GlobalMapHeight s
   \<and> length (ScaryActive (sector_rows y s)) = length (ScaryActive s)
   \<and> GlobalGridNumbers (sector_rows y s) = GlobalGridNumbers s"
  by (induction y s rule: sector_rows.induct)
     (subst (1 2 3 4) sector_rows.simps, simp add: sector_columns_frame)

lemma sector_columns_inv:
  fixes a b i0 j0 :: int
  assumes "50 * (a - 1) + 45 < GlobalMapWidth s" and "GlobalMapWidth s \<le> 50 * a"
    and "50 * (b - 1) + 45 < GlobalMapHeight s"
    and "length (ScaryActive s) = nat (GlobalMapWidth s * GlobalMapHeight s)"
    and "0 \<le> i0" and "i0 \<le> a" and "0 \<le> j0" and "j0 < b"
    and "spawn_inv a s i0 j0"
  shows "spawn_inv a (sector_columns (50 * j0) (50 * i0) s) a j0"
  using assms
proof (induction "nat (a - i0)" arbitrary: i0 s)
  case 0
  then have "i0 = a" by simp
  with "0.prems" show ?case
    by (subst sector_columns.simps) simp
next
  case (Suc n)
  then have lt: "i0 < a" by simp
  let ?s' = "spawn_in_sector (50 * i0) (50 * j0) s"
  have step: "spawn_inv a ?s' (i0 + 1) j0"
    using Suc.prems(1,3,4) Suc.prems(5) lt Suc.prems(7,8) Suc.prems(9)
    by (rule spawn_in_sector_step)
  have "n = nat (a - (i0 + 1))"
    using Suc.hyps(2) by simp
  moreover have "50 * (a - 1) + 45 < GlobalMapWidth ?s'" and "GlobalMapWidth ?s' \<le> 50 * a"
    and "50 * (b - 1) + 45 < GlobalMapHeight ?s'"
    and "length (ScaryActive ?s') = nat (GlobalMapWidth ?s' * GlobalMapHeight ?s')"
    using Suc.prems(1-4) by (simp_all add: spawn_in_sector_frame)
  moreover have "0 \<le> i0 + 1" and "i0 + 1 \<le> a"
    using Suc.prems(5) lt by simp_all
  ultimately have "spawn_inv a (sector_columns (50 * j0) (50 * (i0 + 1)) ?s') a j0"
    using Suc.prems(7,8) step by (rule Suc.hyps(1))
  moreover have "50 * i0 < GlobalMapWidth s"
    using lt Suc.prems(1) by simp
  then have "sector_columns (50 * j0) (50 * i0) s =
      sector_columns (50 * j0) (50 * (i0 + 1)) ?s'"
    by (subst sector_columns.simps) (simp add: algebra_simps)
  ultimately show ?case by simp
qed

lemma spawn_inv_row:
  assumes "spawn_inv a s a j0"
  shows "spawn_inv a s 0 (j0 + 1)"
  using assms unfolding spawn_inv_def sector_done_row by (simp add: algebra_simps)

lemma spawn_inv_same_flags:
  assumes "ScaryActive t = ScaryActive s" and "GlobalMapWidth t = GlobalMapWidth s"
  shows "spawn_inv a t i0 j0 = spawn_inv a s i0 j0"
  using assms
  by (simp add: spawn_inv_def scary_cell_def interior_cell_def cell_offset_def cell_sector_def
      scary_count_def)

lemma sector_rows_inv:
  fixes a b j0 :: int
  assumes "50 * (a - 1) + 45 < GlobalMapWidth s" and "GlobalMapWidth s \<le> 50 * a"
    and "50 * (b - 1) + 45 < GlobalMapHeight s" and "GlobalMapHeight s \<le> 50 * b"
    and "0 < a"
    and "length (ScaryActive s) = nat (GlobalMapWidth s * GlobalMapHeight s)"
    and "0 \<le> j0" and "j0 \<le> b"
    and "spawn_inv a s 0 j0"
  shows "spawn_inv a (sector_rows (50 * j0) s) 0 b"
  using assms
proof (induction "nat (b - j0)" arbitrary: j0 s)
  case 0
  then have "j0 = b" by simp
  with "0.prems" show ?case
    by (subst sector_rows.simps) simp
next
  case (Suc n)
  then have lt: "j0 < b" by simp
  let ?s' = "sector_columns (50 * j0) 0 s"
  have "spawn_inv a (sector_columns (50 * j0) (50 * 0) s) a j0"
    using Suc.prems(1,2,3,6) _ _ Suc.prems(7) lt
  proof (rule sector_columns_inv)
    show "(0::int) \<le> 0" by simp
    show "0 \<le> a" using Suc.prems(5) by simp
    show "spawn_inv a s 0 j0" by (rule Suc.prems(9))
  qed
  then have "spawn_inv a ?s' a j0" by simp
  then have next_row: "spawn_inv a ?s' 0 (j0 + 1)"
    by (rule spawn_inv_row)
  have fr: "50 * (a - 1) + 45 < GlobalMapWidth ?s'" "GlobalMapWidth ?s' \<le> 50 * a"
    "50 * (b - 1) + 45 < GlobalMapHeight ?s'" "GlobalMapHeight ?s' \<le> 50 * b"
    "length (ScaryActive ?s') = nat (GlobalMapWidth ?s' * GlobalMapHeight ?s')"
    using Suc.prems(1-4,6) by (simp_all add: sector_columns_frame)
  have "n = nat (b - (j0 + 1))"
    using Suc.hyps(2) by simp
  moreover have "0 \<le> j0 + 1" and "j0 + 1 \<le> b"
    using Suc.prems(7) lt by simp_all
  ultimately have "spawn_inv a (sector_rows (50 * (j0 + 1)) ?s') 0 b"
    using fr Suc.prems(5) next_row by (intro Suc.hyps(1)) simp_all
  moreover have "50 * j0 < GlobalMapHeight s"
    using lt Suc.prems(3) by simp
  then have "sector_rows (50 * j0) s = sector_rows (50 * (j0 + 1)) ?s'"
    by (subst sector_rows.simps) (simp add: algebra_simps)
  ultimately show ?case by simp
qed

lemma spawn_inv_start:
  assumes "ScaryActive s = replicate n False"
  shows "spawn_inv a s 0 0"
  using assms
  by (auto simp: spawn_inv_def scary_cell_def IsValidIndex_def sector_done_def scary_count_def)

lemma fill_grid_frame:
  "GlobalMapWidth (fill_grid i n s) = GlobalMapWidth s
   \<and> GlobalMapHeight (fill_grid i n s) = GlobalMapHeight s
   \<and> ScaryActive (fill_grid i n s) = ScaryActive s
   \<and> length (GlobalGridNumbers (fill_grid i n s)) = length (GlobalGridNumbers s)"
  by (induction i n s rule: fill_grid.induct)
     (subst (1 2 3 4) fill_grid.simps, simp add: RandRange_1_9)

lemma fill_grid_values:
  assumes "0 \<le> i" and "k < length (GlobalGridNumbers s)"
  shows "(nat i \<le> k \<and> k < nat n \<longrightarrow>
            1 \<le> GlobalGridNumbers (fill_grid i n s) ! k
            \<and> GlobalGridNumbers (fill_grid i n s) ! k \<le> 9)
       \<and> (k < nat i \<longrightarrow> GlobalGridNumbers (fill_grid i n s) ! k = GlobalGridNumbers s ! k)"
  using assms
proof (induction i n s rule: fill_grid.induct)
  case (1 i n s)
  show ?case
  proof (cases "i < n")
    case False
    then have "fill_grid i n s = s"
      by (subst fill_grid.simps) simp
    moreover from False "1.prems"(1) have "\<not> (nat i \<le> k \<and> k < nat n)"
      by linarith
    ultimately show ?thesis by auto
  next
    case True
    let ?v = "1 + int (RandSource s (RandPos s)) mod 9"
    let ?s' = "s\<lparr>RandPos := Suc (RandPos s),
                 GlobalGridNumbers := (GlobalGridNumbers s)[nat i := ?v]\<rparr>"
    have unfold: "fill_grid i n s = fill_grid (i + 1) n ?s'"
      using True by (subst fill_grid_unfold) simp
    have "RandRange 1 9 s = (?v, s\<lparr>RandPos := Suc (RandPos s)\<rparr>)"
      by (rule RandRange_1_9)
    with True "1.prems" "1.IH" [of "(?v, s\<lparr>RandPos := Suc (RandPos s)\<rparr>)" ?v "s\<lparr>RandPos := Suc (RandPos s)\<rparr>"]
    have IH: "(nat (i + 1) \<le> k \<and> k < nat n \<longrightarrow>
            1 \<le> GlobalGridNumbers (fill_grid (i + 1) n ?s') ! k
            \<and> GlobalGridNumbers (fill_grid (i + 1) n ?s') ! k \<le> 9)
       \<and> (k < nat (i + 1) \<longrightarrow>
            GlobalGridNumbers (fill_grid (i + 1) n ?s') ! k = GlobalGridNumbers ?s' ! k)"
      by simp
    have cell: "GlobalGridNumbers ?s' ! k = (if k = nat i then ?v else GlobalGridNumbers s ! k)"
      using "1.prems" by (simp add: nth_list_update)
    have v: "1 \<le> ?v" "?v \<le> 9" by simp_all
    have succ: "nat (i + 1) = Suc (nat i)"
      using "1.prems"(1) by simp
    show ?thesis
      unfolding unfold using IH cell v succ by (cases "k = nat i") auto
  qed
qed


lemma GenerateGrid_fields:
  "GlobalGridNumbers (GenerateGrid s) =
     GlobalGridNumbers (fill_grid 0 (GlobalMapWidth s * GlobalMapHeight s)
       (s\<lparr>GlobalGridNumbers := replicate (nat (GlobalMapWidth s * GlobalMapHeight s)) 0,
          ScaryActive := replicate (nat (GlobalMapWidth s * GlobalMapHeight s)) False\<rparr>))"
  "length (ScaryActive (GenerateGrid s)) = nat (GlobalMapWidth s * GlobalMapHeight s)"
  "GlobalMapWidth (GenerateGrid s) = GlobalMapWidth s"
  "GlobalMapHeight (GenerateGrid s) = GlobalMapHeight s"
  by (simp_all add: GenerateGrid_def Let_def emit_def sector_rows_frame fill_grid_frame)

lemma GenerateGrid_spawn_inv:
  fixes a b :: int
  assumes "50 * (a - 1) + 45 < GlobalMapWidth s" and "GlobalMapWidth s \<le> 50 * a"
    and "50 * (b - 1) + 45 < GlobalMapHeight s" and "GlobalMapHeight s \<le> 50 * b"
    and "0 < a" and "0 < b"
  shows "spawn_inv a (GenerateGrid s) 0 b"
proof -
  let ?n = "GlobalMapWidth s * GlobalMapHeight s"
  let ?s3 = "fill_grid 0 ?n
       (s\<lparr>GlobalGridNumbers := replicate (nat ?n) 0, ScaryActive := replicate (nat ?n) False\<rparr>)"
  have flags: "ScaryActive ?s3 = replicate (nat ?n) False"
    and dims: "GlobalMapWidth ?s3 = GlobalMapWidth s" "GlobalMapHeight ?s3 = GlobalMapHeight s"
    by (simp_all add: fill_grid_frame)
  have "spawn_inv a (sector_rows (50 * 0) ?s3) 0 b"
  proof (rule sector_rows_inv [where a = a and b = b])
    show "50 * (a - 1) + 45 < GlobalMapWidth ?s3" and "GlobalMapWidth ?s3 \<le> 50 * a"
      and "50 * (b - 1) + 45 < GlobalMapHeight ?s3" and "GlobalMapHeight ?s3 \<le> 50 * b"
      unfolding dims by (rule assms)+
    show "0 < a" by (rule assms(5))
    show "length (ScaryActive ?s3) = nat (GlobalMapWidth ?s3 * GlobalMapHeight ?s3)"
      by (simp add: fill_grid_frame)
    show "(0::int) \<le> 0" by simp
    show "0 \<le> b" using assms(6) by simp
    show "spawn_inv a ?s3 0 0" using flags by (rule spawn_inv_start)
  qed
  then have "spawn_inv a (sector_rows 0 ?s3) 0 b"
    by simp
  moreover have "ScaryActive (GenerateGrid s) = ScaryActive (sector_rows 0 ?s3)"
    and "GlobalMapWidth (GenerateGrid s) = GlobalMapWidth (sector_rows 0 ?s3)"
    by (simp_all add: GenerateGrid_def Let_def emit_def)
  then have "spawn_inv a (GenerateGrid s) 0 b = spawn_inv a (sector_rows 0 ?s3) 0 b"
    by (rule spawn_inv_same_flags)
  ultimately show ?thesis
    by simp
qed

text \<open>
  C6, as the code has it. After \<open>GenerateGrid\<close> on a map of positive width and height
  the value array and the flag array have \<open>width * height\<close> cells and every value is
  in 1..9. When the width and the height are made of whole sectors (a multiple of 50, as
  in the default \<open>1000 \<times> 1000\<close>, or at most 4 short of one, so that the last sector still
  holds the offsets 5..45), exactly \<open>\<lceil>width / 50\<rceil> * \<lceil>height / 50\<rceil>\<close> flags are set:
  each \<open>50 \<times> 50\<close> sector holds exactly one scary cell, and every scary cell lies at an
  offset of 5..45 inside its sector, in both directions.
\<close>

theorem generation_invariant:
  assumes "0 < GlobalMapWidth s" and "0 < GlobalMapHeight s"
  shows "length (GlobalGridNumbers (GenerateGrid s)) = nat (GlobalMapWidth s * GlobalMapHeight s)
    \<and> (\<forall>k < length (GlobalGridNumbers (GenerateGrid s)).
          1 \<le> GlobalGridNumbers (GenerateGrid s) ! k \<and> GlobalGridNumbers (GenerateGrid s) ! k \<le> 9)
    \<and> length (ScaryActive (GenerateGrid s)) = nat (GlobalMapWidth s * GlobalMapHeight s)
    \<and> (whole_sectors (GlobalMapWidth s) \<and> whole_sectors (GlobalMapHeight s) \<longrightarrow>
          int (scary_count (GenerateGrid s)) =
            sector_count (GlobalMapWidth s) * sector_count (GlobalMapHeight s)
        \<and> (\<forall>i j. 0 \<le> i \<and> i < sector_count (GlobalMapWidth s)
                 \<and> 0 \<le> j \<and> j < sector_count (GlobalMapHeight s) \<longrightarrow>
              (\<exists>!c. scary_cell (GenerateGrid s) c \<and> cell_sector (GenerateGrid s) c = (i, j)))
        \<and> (\<forall>c. scary_cell (GenerateGrid s) c \<longrightarrow> interior_cell (GenerateGrid s) c))"
proof -
  let ?n = "GlobalMapWidth s * GlobalMapHeight s"
  let ?s2 = "s\<lparr>GlobalGridNumbers := replicate (nat ?n) 0, ScaryActive := replicate (nat ?n) False\<rparr>"
  let ?g = "GenerateGrid s"
  let ?a = "sector_count (GlobalMapWidth s)" and ?b = "sector_count (GlobalMapHeight s)"
  have len: "length (GlobalGridNumbers ?g) = nat ?n"
    by (simp add: GenerateGrid_fields(1) fill_grid_frame)
  have vals: "\<forall>k < length (GlobalGridNumbers ?g).
      1 \<le> GlobalGridNumbers ?g ! k \<and> GlobalGridNumbers ?g ! k \<le> 9"
  proof (intro allI impI)
    fix k
    assume "k < length (GlobalGridNumbers ?g)"
    with len have "k < length (GlobalGridNumbers ?s2)" and "k < nat ?n"
      by simp_all
    with fill_grid_values [of 0 k ?s2 ?n]
    show "1 \<le> GlobalGridNumbers ?g ! k \<and> GlobalGridNumbers ?g ! k \<le> 9"
      by (simp add: GenerateGrid_fields(1))
  qed
  have flags: "length (ScaryActive ?g) = nat ?n"
    by (rule GenerateGrid_fields(2))
  have sectors: "whole_sectors (GlobalMapWidth s) \<and> whole_sectors (GlobalMapHeight s) \<longrightarrow>
      int (scary_count ?g) = ?a * ?b
      \<and> (\<forall>i j. 0 \<le> i \<and> i < ?a \<and> 0 \<le> j \<and> j < ?b \<longrightarrow>
            (\<exists>!c. scary_cell ?g c \<and> cell_sector ?g c = (i, j)))
      \<and> (\<forall>c. scary_cell ?g c \<longrightarrow> interior_cell ?g c)"
  proof (intro impI)
    assume m: "whole_sectors (GlobalMapWidth s) \<and> whole_sectors (GlobalMapHeight s)"
    from m assms(1) have W: "0 < ?a" "50 * (?a - 1) + 45 < GlobalMapWidth s"
      "GlobalMapWidth s \<le> 50 * ?a"
      using whole_sectors_bounds [of "GlobalMapWidth s"] by simp_all
    from m assms(2) have H: "0 < ?b" "50 * (?b - 1) + 45 < GlobalMapHeight s"
      "GlobalMapHeight s \<le> 50 * ?b"
      using whole_sectors_bounds [of "GlobalMapHeight s"] by simp_all
    from W(2,3) H(2,3) W(1) H(1) have "spawn_inv ?a ?g 0 ?b"
      by (rule GenerateGrid_spawn_inv)
    then have B: "\<forall>c. scary_cell ?g c \<longrightarrow> interior_cell ?g c"
      and C: "\<And>p. sector_done ?a 0 ?b p \<Longrightarrow> \<exists>!c. scary_cell ?g c \<and> cell_sector ?g c = p"
      and D: "int (scary_count ?g) = ?b * ?a + 0"
      unfolding spawn_inv_def by blast+
    have E: "\<forall>i j. 0 \<le> i \<and> i < ?a \<and> 0 \<le> j \<and> j < ?b \<longrightarrow>
        (\<exists>!c. scary_cell ?g c \<and> cell_sector ?g c = (i, j))"
    proof (intro allI impI)
      fix i j
      assume "0 \<le> i \<and> i < ?a \<and> 0 \<le> j \<and> j < ?b"
      then have "sector_done ?a 0 ?b (i, j)"
        by (simp add: sector_done_def)
      then show "\<exists>!c. scary_cell ?g c \<and> cell_sector ?g c = (i, j)"
        by (rule C)
    qed
    from D have "int (scary_count ?g) = ?a * ?b"
      by (simp add: mult.commute)
    then show "int (scary_count ?g) = ?a * ?b
      \<and> (\<forall>i j. 0 \<le> i \<and> i < ?a \<and> 0 \<le> j \<and> j < ?b \<longrightarrow>
            (\<exists>!c. scary_cell ?g c \<and> cell_sector ?g c = (i, j)))
      \<and> (\<forall>c. scary_cell ?g c \<longrightarrow> interior_cell ?g c)"
      using E B by (intro conjI)
  qed
  show ?thesis
    using len vals flags sectors by (intro conjI)
qed

theorem generation_invariant_witness:
  "length (GlobalGridNumbers
      (GenerateGrid (sample_terminal\<lparr>GlobalMapWidth := 50, GlobalMapHeight := 96\<rparr>))) = 4800
   \<and> scary_count (GenerateGrid (sample_terminal\<lparr>GlobalMapWidth := 50, GlobalMapHeight := 96\<rparr>)) = 2"
proof -
  let ?s = "sample_terminal\<lparr>GlobalMapWidth := 50, GlobalMapHeight := 96\<rparr>"
  have "0 < GlobalMapWidth ?s" and "0 < GlobalMapHeight ?s"
    by simp_all
  note gen = generation_invariant [OF this]
  have "whole_sectors (GlobalMapWidth ?s)" and "whole_sectors (GlobalMapHeight ?s)"
    by (simp_all add: whole_sectors_def)
  moreover have "sector_count (GlobalMapWidth ?s) = 1" and "sector_count (GlobalMapHeight ?s) = 2"
    by (simp_all add: sector_count_def ceiling_eq_iff)
  ultimately have "int (scary_count (GenerateGrid ?s)) = 2"
    using gen by simp
  moreover from gen have "length (GlobalGridNumbers (GenerateGrid ?s)) = 4800"
    by simp
  ultimately show ?thesis
    by simp
qed

text \<open>
  C6 as stated fails on a map that is not made of whole sectors. On a map of one cell the
  only sector's pick, at offset 5 or more, is outside the array and the validity test
  skips it: no flag is set, where the claim counts one.
\<close>

theorem no_scary_tile_on_small_map:
  "GlobalMapWidth tiny_terminal = 1 \<and> GlobalMapHeight tiny_terminal = 1
   \<and> sector_count 1 * sector_count 1 = 1
   \<and> ScaryActive (GenerateGrid tiny_terminal) = [False]
   \<and> scary_count (GenerateGrid tiny_terminal) = 0"
proof -
  have "sector_count 1 = 1"
    by (simp add: sector_count_def ceiling_eq_iff)
  moreover have "ScaryActive (GenerateGrid tiny_terminal) = [False]"
    by (simp add: tiny_terminal_def sample_terminal_def GenerateGrid_def fill_grid_unfold
        sector_rows.simps sector_columns.simps spawn_in_sector_unfold IsValidIndex_def
        emit_def Let_def)
  ultimately show ?thesis
    by (simp add: scary_count_def tiny_terminal_def)
qed

end
